theory Spec2Isabelle
  imports Main
begin

section \<open>Data model of builtin.c\<close>

text \<open>
  builtin.c is the glue between the interpreter's values (\<^verbatim>\<open>struct value\<close>) and the
  lens engine, the tree module and the exception builder. Every \<^verbatim>\<open>struct value *\<close>,
  \<^verbatim>\<open>struct tree *\<close> and memstream buffer is an address into a typed store, so that
  in-place mutation, aliasing and release are visible. \<^verbatim>\<open>NULL\<close> is \<open>None\<close>.
  Reference counts (\<^verbatim>\<open>ref\<close>) are not part of the model: \<^verbatim>\<open>ref(x)\<close> is \<open>x\<close>.
\<close>

type_synonym addr = nat

text \<open>Modelled from the spec: \<^verbatim>\<open>struct info\<close> (syntax.h is not under src/) is a
  source-location record (file, line range).\<close>

record info =
  info_file :: string
  info_first_line :: nat
  info_last_line :: nat

text \<open>Of \<^verbatim>\<open>struct lens\<close> the glue reads \<^verbatim>\<open>info\<close>, \<^verbatim>\<open>key\<close> and \<^verbatim>\<open>value\<close>.\<close>

record lens =
  lens_info :: info
  lens_key :: bool
  lens_value :: bool

text \<open>\<^verbatim>\<open>struct filter\<close> as \<^verbatim>\<open>make_filter(glob, include)\<close> builds it, and
  \<^verbatim>\<open>struct transform\<close> as \<^verbatim>\<open>make_transform(lens, filter)\<close> builds it.\<close>

record filter =
  filter_glob :: string
  filter_incl :: bool

record transform =
  xform_lens :: lens
  xform_filter :: filter

text \<open>\<^verbatim>\<open>struct exn\<close>: a message and the lines \<^verbatim>\<open>exn_printf_line\<close> appended, in order.\<close>

record exn =
  exn_message :: string
  exn_lines :: "string list"

text \<open>\<^verbatim>\<open>struct lns_error\<close>: \<^verbatim>\<open>lens\<close> and \<^verbatim>\<open>path\<close> may be \<^verbatim>\<open>NULL\<close>; \<^verbatim>\<open>pos\<close> is a C \<^verbatim>\<open>int\<close>
  that is only compared with 0 and printed, so it is an \<open>int\<close>.\<close>

record lns_error =
  err_lens :: "lens option"
  err_pos :: int
  err_path :: "string option"
  err_message :: string

text \<open>\<^verbatim>\<open>struct tree\<close>: a node of a sibling list (\<^verbatim>\<open>next\<close>) with a list of children.\<close>

record tree =
  tree_label :: "string option"
  tree_value :: "string option"
  tree_parent :: "addr option"
  tree_children :: "addr option"
  tree_next :: "addr option"

text \<open>The heap of tree nodes, with the next address \<^verbatim>\<open>make_tree\<close> hands out.\<close>

record theap =
  nodes :: "addr \<rightharpoonup> tree"
  node_brk :: addr

text \<open>\<^verbatim>\<open>struct value\<close>: the tag and the member of the union that goes with it.\<close>

datatype val =
    V_STRING info string
  | V_REGEXP info string
  | V_LENS info lens
  | V_TREE info "addr option"
  | V_FILTER info filter
  | V_TRANSFORM info transform
  | V_EXN info exn

text \<open>The store: value cells, the tree heap, the buffers of open or closed
  memstreams, and \<^verbatim>\<open>gensym\<close>'s \<^verbatim>\<open>static unsigned int count\<close>.\<close>

record store =
  cells :: "addr \<rightharpoonup> val"
  cell_brk :: addr
  trees :: theap
  bufs :: "addr \<rightharpoonup> string"
  buf_brk :: addr
  gensym_count :: nat

definition init_store :: store where
  "init_store = \<lparr>cells = Map.empty, cell_brk = 0,
     trees = \<lparr>nodes = Map.empty, node_brk = 0\<rparr>,
     bufs = Map.empty, buf_brk = 0, gensym_count = 0\<rparr>"

text \<open>
  The collaborators that builtin.c calls and that are not under src/. They are
  parameters of the glue; a theorem says which of their results it is about.
  \<^item> \<open>format_info\<close> and \<open>format_pos text pos\<close>: the strings returned, \<open>None\<close> for \<^verbatim>\<open>NULL\<close>;
  \<^item> \<open>null_text\<close>: what the C library prints for \<^verbatim>\<open>%s\<close> with a \<^verbatim>\<open>NULL\<close> argument;
  \<^item> \<open>print_tree h t\<close>: the text that \<^verbatim>\<open>print_tree(t, stream, "/*", 1)\<close> writes;
  \<^item> \<open>lns_get h info lens text\<close>: the new heap, the tree and \<^verbatim>\<open>*err\<close>;
  \<^item> \<open>lns_put h lens tree text\<close>: the new heap, the text written to the stream
    and \<^verbatim>\<open>*err\<close>;
  \<^item> \<open>tree_set h root path value\<close>: the new heap and the node returned;
  \<^item> \<open>tree_insert h head path label before\<close> and \<open>tree_rm h head path\<close>: the new heap,
    the new \<^verbatim>\<open>*head\<close> and the \<^verbatim>\<open>int\<close> returned.
\<close>

record ext =
  format_info :: "info \<Rightarrow> string"
  format_pos :: "string \<Rightarrow> int \<Rightarrow> string option"
  null_text :: string
  print_tree :: "theap \<Rightarrow> addr \<Rightarrow> string"
  lns_get :: "theap \<Rightarrow> info \<Rightarrow> lens \<Rightarrow> string \<Rightarrow> theap \<times> addr option \<times> lns_error option"
  lns_put :: "theap \<Rightarrow> lens \<Rightarrow> addr option \<Rightarrow> string \<Rightarrow> theap \<times> string \<times> lns_error option"
  tree_set :: "theap \<Rightarrow> addr option \<Rightarrow> string \<Rightarrow> string \<Rightarrow> theap \<times> addr option"
  tree_insert :: "theap \<Rightarrow> addr option \<Rightarrow> string \<Rightarrow> string \<Rightarrow> bool \<Rightarrow> theap \<times> addr option \<times> int"
  tree_rm :: "theap \<Rightarrow> addr option \<Rightarrow> string \<Rightarrow> theap \<times> addr option \<times> int"

section \<open>printf conversions\<close>

definition digit_char :: "nat \<Rightarrow> char" where
  "digit_char d = ''0123456789'' ! d"

function string_of_nat :: "nat \<Rightarrow> string" where
  "string_of_nat n =
     (if n < 10 then [digit_char n] else string_of_nat (n div 10) @ [digit_char (n mod 10)])"
  by pat_completeness auto
termination
  by (relation "measure (\<lambda>n. n)") auto

declare string_of_nat.simps [simp del]

text \<open>\<^verbatim>\<open>%u\<close>, \<^verbatim>\<open>%d\<close> and \<^verbatim>\<open>%s\<close>.\<close>

definition fmt_u :: "nat \<Rightarrow> string" where
  "fmt_u n = string_of_nat n"

definition fmt_d :: "int \<Rightarrow> string" where
  "fmt_d i = (if i < 0 then CHR ''-'' # string_of_nat (nat (- i)) else string_of_nat (nat i))"

definition fmt_s :: "ext \<Rightarrow> string option \<Rightarrow> string" where
  "fmt_s E s = (case s of None \<Rightarrow> null_text E | Some t \<Rightarrow> t)"

section \<open>Values and exceptions\<close>

text \<open>\<^verbatim>\<open>make_value(tag, info)\<close> followed by the assignment of the union member: a new
  cell holding \<open>v\<close>.\<close>

definition make_value :: "val \<Rightarrow> store \<Rightarrow> addr \<times> store" where
  "make_value v s =
     (cell_brk s, s\<lparr>cells := (cells s)(cell_brk s \<mapsto> v), cell_brk := Suc (cell_brk s)\<rparr>)"

text \<open>Modelled from the spec: \<^verbatim>\<open>make_exn_value\<close> is not under src/. An exception value is
  a message plus an ordered sequence of additional lines, none at first. The message
  is the format with its arguments printed.\<close>

definition make_exn_value :: "info \<Rightarrow> string \<Rightarrow> store \<Rightarrow> addr \<times> store" where
  "make_exn_value i msg s = make_value (V_EXN i \<lparr>exn_message = msg, exn_lines = []\<rparr>) s"

text \<open>Modelled from the spec: \<^verbatim>\<open>exn_printf_line\<close> is not under src/. It appends one
  line, the format with its arguments printed, to the lines of the exception in cell
  \<open>v\<close>.\<close>

definition exn_printf_line :: "addr \<Rightarrow> string \<Rightarrow> store \<Rightarrow> store" where
  "exn_printf_line v line s =
     (case cells s v of
        Some (V_EXN i e) \<Rightarrow>
          s\<lparr>cells := (cells s)(v \<mapsto> V_EXN i (e\<lparr>exn_lines := exn_lines e @ [line]\<rparr>))\<rparr>
      | _ \<Rightarrow> s)"

definition lens_line :: "ext \<Rightarrow> lens \<Rightarrow> string" where
  "lens_line E l = ''Lens: '' @ format_info E (lens_info l)"

definition pos_line :: "int \<Rightarrow> string" where
  "pos_line p = ''Error encountered here ('' @ fmt_d p @ '' characters into string)''"

definition path_line :: "ext \<Rightarrow> string option \<Rightarrow> string" where
  "path_line E p = ''Error encountered at path '' @ fmt_s E p"

text \<open>\<^verbatim>\<open>make_exn_lns_error\<close>: the message, the line of the lens when \<^verbatim>\<open>err->lens\<close> is not
  \<^verbatim>\<open>NULL\<close>, then for \<^verbatim>\<open>err->pos >= 0\<close> the offset line and the context when \<^verbatim>\<open>format_pos\<close>
  returned one, and otherwise the path line, whatever \<^verbatim>\<open>err->path\<close> is.\<close>

definition make_exn_lns_error :: "ext \<Rightarrow> info \<Rightarrow> lns_error \<Rightarrow> string \<Rightarrow> store \<Rightarrow> addr \<times> store" where
  "make_exn_lns_error E i err text s =
     (let (v, s1) = make_exn_value i (err_message err) s;
          s2 = (case err_lens err of
                  Some l \<Rightarrow> exn_printf_line v (lens_line E l) s1
                | None \<Rightarrow> s1);
          s3 = (if 0 \<le> err_pos err then
                  (let pos = format_pos E text (err_pos err);
                       s' = exn_printf_line v (pos_line (err_pos err)) s2
                   in (case pos of Some p \<Rightarrow> exn_printf_line v p s' | None \<Rightarrow> s'))
                else exn_printf_line v (path_line E (err_path err)) s2)
      in (v, s3))"

section \<open>Reading the arguments\<close>

text \<open>Each primitive starts with \<^verbatim>\<open>assert(arg->tag == ...)\<close>. These read the union member
  when the tag is the asserted one; \<open>None\<close> is the failed assertion, and the primitive
  then does not return (\<^verbatim>\<open>abort\<close>).\<close>

definition str_of :: "store \<Rightarrow> addr \<Rightarrow> string option" where
  "str_of s a = (case cells s a of Some (V_STRING _ x) \<Rightarrow> Some x | _ \<Rightarrow> None)"

definition lens_of :: "store \<Rightarrow> addr \<Rightarrow> lens option" where
  "lens_of s a = (case cells s a of Some (V_LENS _ l) \<Rightarrow> Some l | _ \<Rightarrow> None)"

definition filter_of :: "store \<Rightarrow> addr \<Rightarrow> filter option" where
  "filter_of s a = (case cells s a of Some (V_FILTER _ f) \<Rightarrow> Some f | _ \<Rightarrow> None)"

definition tree_of :: "store \<Rightarrow> addr \<Rightarrow> addr option option" where
  "tree_of s a = (case cells s a of Some (V_TREE _ t) \<Rightarrow> Some t | _ \<Rightarrow> None)"

text \<open>The pointer \<^verbatim>\<open>tree->tree\<close> read from cell \<open>a\<close> once its tag has been asserted, and
  the assignment \<^verbatim>\<open>tree->tree = t\<close>.\<close>

definition tree_ptr :: "store \<Rightarrow> addr \<Rightarrow> addr option" where
  "tree_ptr s a = (case cells s a of Some (V_TREE _ t) \<Rightarrow> t | _ \<Rightarrow> None)"

definition set_tree :: "addr \<Rightarrow> addr option \<Rightarrow> store \<Rightarrow> store" where
  "set_tree a t s =
     (case cells s a of
        Some (V_TREE i _) \<Rightarrow> s\<lparr>cells := (cells s)(a \<mapsto> V_TREE i t)\<rparr>
      | _ \<Rightarrow> s)"

section \<open>Symbols, filters and transforms\<close>

text \<open>\<^verbatim>\<open>asprintf\<close> returns -1 when it cannot allocate; \<open>oom\<close> says whether it does in
  this call. \<^verbatim>\<open>gensym\<close> then returns \<^verbatim>\<open>NULL\<close>. No statement of the function writes
  \<^verbatim>\<open>count\<close>.\<close>

definition gensym :: "bool \<Rightarrow> info \<Rightarrow> addr \<Rightarrow> store \<Rightarrow> (addr option \<times> store) option" where
  "gensym oom i prefix s =
     (case str_of s prefix of
        None \<Rightarrow> None
      | Some p \<Rightarrow>
          (if oom then Some (None, s)
           else (let (v, s') = make_value (V_STRING i (p @ fmt_u (gensym_count s))) s
                 in Some (Some v, s'))))"

definition xform_incl :: "info \<Rightarrow> addr \<Rightarrow> store \<Rightarrow> (addr \<times> store) option" where
  "xform_incl i a s =
     (case str_of s a of
        None \<Rightarrow> None
      | Some g \<Rightarrow> Some (make_value (V_FILTER i \<lparr>filter_glob = g, filter_incl = True\<rparr>) s))"

definition xform_excl :: "info \<Rightarrow> addr \<Rightarrow> store \<Rightarrow> (addr \<times> store) option" where
  "xform_excl i a s =
     (case str_of s a of
        None \<Rightarrow> None
      | Some g \<Rightarrow> Some (make_value (V_FILTER i \<lparr>filter_glob = g, filter_incl = False\<rparr>) s))"

definition transform_msg :: "lens \<Rightarrow> string" where
  "transform_msg l = ''Can not build a transform from a lens that leaves a '' @
     (if lens_key l then ''key'' else ''value'') @ '' behind''"

text \<open>\<^verbatim>\<open>xform_transform\<close>: the two assertions, the exception when the lens leaves a value
  or a key, the transform otherwise.\<close>

definition xform_transform :: "info \<Rightarrow> addr \<Rightarrow> addr \<Rightarrow> store \<Rightarrow> (addr \<times> store) option" where
  "xform_transform i l f s =
     (case lens_of s l of
        None \<Rightarrow> None
      | Some lns \<Rightarrow>
          (case filter_of s f of
             None \<Rightarrow> None
           | Some flt \<Rightarrow>
               (if lens_value lns \<or> lens_key lns
                then Some (make_exn_value i (transform_msg lns) s)
                else Some (make_value (V_TRANSFORM i \<lparr>xform_lens = lns, xform_filter = flt\<rparr>) s))))"

section \<open>Tree nodes and memstreams\<close>

text \<open>Modelled from the spec: \<^verbatim>\<open>make_tree\<close>, a primitive for scaffold management of the
  tree module, is not under src/. \<^verbatim>\<open>make_tree(label, value, parent, children)\<close> allocates
  a node that has no sibling; the one call passes four \<^verbatim>\<open>NULL\<close>s.\<close>

definition make_tree ::
  "string option \<Rightarrow> string option \<Rightarrow> addr option \<Rightarrow> addr option \<Rightarrow> theap \<Rightarrow> addr \<times> theap" where
  "make_tree l v p c h =
     (node_brk h,
      h\<lparr>nodes := (nodes h)(node_brk h \<mapsto>
           \<lparr>tree_label = l, tree_value = v, tree_parent = p, tree_children = c, tree_next = None\<rparr>),
        node_brk := Suc (node_brk h)\<rparr>)"

text \<open>Modelled from the spec: the search of \<^verbatim>\<open>list_remove\<close> (not under src/) for the
  node whose \<^verbatim>\<open>next\<close> is \<open>e\<close>, from \<open>p\<close> on:
  \<open>Some None\<close> when the list ends first, \<open>None\<close> when the walk does not return (a
  cyclic list, or an address that is not a node).\<close>

partial_function (option) list_pred :: "theap \<Rightarrow> addr option \<Rightarrow> addr \<Rightarrow> addr option option" where
  "list_pred h p e =
     (case p of
        None \<Rightarrow> Some None
      | Some a \<Rightarrow>
          (case nodes h a of
             None \<Rightarrow> None
           | Some n \<Rightarrow> if tree_next n = Some e then Some (Some a) else list_pred h (tree_next n) e))"

text \<open>The assignment \<^verbatim>\<open>a->next = t\<close>.\<close>

definition set_next :: "addr \<Rightarrow> addr option \<Rightarrow> theap \<Rightarrow> theap" where
  "set_next a t h =
     (case nodes h a of
        None \<Rightarrow> h
      | Some n \<Rightarrow> h\<lparr>nodes := (nodes h)(a \<mapsto> n\<lparr>tree_next := t\<rparr>)\<rparr>)"

text \<open>Modelled from the spec: \<^verbatim>\<open>list_remove\<close>, a primitive for scaffold management, is
  not under src/. \<^verbatim>\<open>list_remove(elt, list)\<close> takes \<open>e\<close> out of the sibling list that starts
  at \<open>head\<close> (the head itself, or the node behind the one the search finds) and clears
  \<^verbatim>\<open>e->next\<close>; the result is the new value of \<^verbatim>\<open>list\<close> and the heap.\<close>

definition list_remove :: "addr \<Rightarrow> addr option \<Rightarrow> theap \<Rightarrow> (addr option \<times> theap) option" where
  "list_remove e head h =
     (case nodes h e of
        None \<Rightarrow> None
      | Some en \<Rightarrow>
          (if head = Some e then Some (tree_next en, set_next e None h)
           else
             (case list_pred h head e of
                None \<Rightarrow> None
              | Some None \<Rightarrow> Some (head, set_next e None h)
              | Some (Some p) \<Rightarrow> Some (head, set_next e None (set_next p (tree_next en) h)))))"

text \<open>Modelled from the spec: \<^verbatim>\<open>free_tree\<close>, a primitive for scaffold management, is not
  under src/. \<^verbatim>\<open>free_tree(t)\<close> releases the nodes of the sibling list that starts at \<open>t\<close>,
  each with its children. \<open>None\<close> when it does not return (a cyclic structure, or an
  address that is not a node).\<close>

partial_function (option) free_tree :: "theap \<Rightarrow> addr option \<Rightarrow> theap option" where
  "free_tree h t =
     (case t of
        None \<Rightarrow> Some h
      | Some a \<Rightarrow>
          (case nodes h a of
             None \<Rightarrow> None
           | Some n \<Rightarrow>
               Option.bind (free_tree h (tree_children n))
                 (\<lambda>h1. free_tree (h1\<lparr>nodes := (nodes h1)(a := None)\<rparr>) (tree_next n))))"

text \<open>Modelled from the spec: the memstream of memory.h (not under src/) is a single
  growable buffer. \<^verbatim>\<open>init_memstream\<close> opens an empty one.\<close>

definition init_memstream :: "store \<Rightarrow> addr \<times> store" where
  "init_memstream s =
     (buf_brk s, s\<lparr>bufs := (bufs s)(buf_brk s \<mapsto> []), buf_brk := Suc (buf_brk s)\<rparr>)"

text \<open>Modelled from the spec: what is written to \<^verbatim>\<open>ms.stream\<close> is appended to the buffer.\<close>

definition stream_write :: "addr \<Rightarrow> string \<Rightarrow> store \<Rightarrow> store" where
  "stream_write b txt s =
     (case bufs s b of
        None \<Rightarrow> s
      | Some old \<Rightarrow> s\<lparr>bufs := (bufs s)(b \<mapsto> old @ txt)\<rparr>)"

text \<open>Modelled from the spec: \<^verbatim>\<open>ms.buf\<close> after \<^verbatim>\<open>close_memstream\<close>, the text written.\<close>

definition ms_buf :: "store \<Rightarrow> addr \<Rightarrow> string" where
  "ms_buf s b = (case bufs s b of None \<Rightarrow> [] | Some txt \<Rightarrow> txt)"

text \<open>\<^verbatim>\<open>FREE(ms.buf)\<close> releases the buffer.\<close>

definition free_buf :: "addr \<Rightarrow> store \<Rightarrow> store" where
  "free_buf b s = s\<lparr>bufs := (bufs s)(b := None)\<rparr>"

section \<open>Applying lenses\<close>

text \<open>\<^verbatim>\<open>exn_print_tree\<close>: the tree is printed into a memstream, the text becomes one more
  line of the exception, and the buffer is released.\<close>

definition exn_print_tree :: "ext \<Rightarrow> addr \<Rightarrow> addr \<Rightarrow> store \<Rightarrow> store" where
  "exn_print_tree E exn t s =
     (let (b, s1) = init_memstream s;
          s2 = stream_write b (print_tree E (trees s1) t) s1;
          s3 = exn_printf_line exn (ms_buf s2 b) s2
      in free_buf b s3)"

text \<open>\<^verbatim>\<open>lens_get\<close>: the two assertions, the call of \<^verbatim>\<open>lns_get\<close>, then either a tree value or
  the exception, to which a partial tree is printed before it is released.
  \<^verbatim>\<open>free_lns_error\<close> releases the error, which the model holds by value.\<close>

definition lens_get :: "ext \<Rightarrow> info \<Rightarrow> addr \<Rightarrow> addr \<Rightarrow> store \<Rightarrow> (addr \<times> store) option" where
  "lens_get E i l str s =
     (case lens_of s l of
        None \<Rightarrow> None
      | Some lns \<Rightarrow>
          (case str_of s str of
             None \<Rightarrow> None
           | Some text \<Rightarrow>
               (let (h1, t, err) = lns_get E (trees s) i lns text;
                    s1 = s\<lparr>trees := h1\<rparr>
                in (case err of
                      None \<Rightarrow> Some (make_value (V_TREE i t) s1)
                    | Some e \<Rightarrow>
                        (let (v, s2) = make_exn_lns_error E i e text s1
                         in (case t of
                               None \<Rightarrow> Some (v, s2)
                             | Some a \<Rightarrow>
                                 (let s3 = exn_printf_line v ''Tree generated so far:'' s2;
                                      s4 = exn_print_tree E v a s3
                                  in (case free_tree (trees s4) (Some a) of
                                        None \<Rightarrow> None
                                      | Some h2 \<Rightarrow> Some (v, s4\<lparr>trees := h2\<rparr>)))))))))"

text \<open>\<^verbatim>\<open>lens_put\<close>: the three assertions, \<^verbatim>\<open>lns_put\<close> writing into a memstream, then either
  a string value made of the buffer or the exception and \<^verbatim>\<open>FREE(ms.buf)\<close>.\<close>

definition lens_put :: "ext \<Rightarrow> info \<Rightarrow> addr \<Rightarrow> addr \<Rightarrow> addr \<Rightarrow> store \<Rightarrow> (addr \<times> store) option" where
  "lens_put E i l tree str s =
     (case lens_of s l of
        None \<Rightarrow> None
      | Some lns \<Rightarrow>
          (case tree_of s tree of
             None \<Rightarrow> None
           | Some t \<Rightarrow>
               (case str_of s str of
                  None \<Rightarrow> None
                | Some text \<Rightarrow>
                    (let (b, s1) = init_memstream s;
                         (h1, out, err) = lns_put E (trees s1) lns t text;
                         s2 = stream_write b out (s1\<lparr>trees := h1\<rparr>)
                     in (case err of
                           None \<Rightarrow> Some (make_value (V_STRING i (ms_buf s2 b)) s2)
                         | Some e \<Rightarrow>
                             (let (v, s3) = make_exn_lns_error E i e text s2
                              in Some (v, free_buf b s3)))))))"

section \<open>Editing trees\<close>

definition set_msg :: "string \<Rightarrow> string \<Rightarrow> string" where
  "set_msg p x = ''Tree set of '' @ p @ '' to '' @ [CHR 0x27] @ x @ [CHR 0x27] @ '' failed''"

text \<open>\<^verbatim>\<open>tree_set_glue\<close>: the three assertions; the scaffold \<open>fake\<close> when \<^verbatim>\<open>tree->tree\<close> is
  \<^verbatim>\<open>NULL\<close>; \<^verbatim>\<open>tree_set\<close>, and the early return of the exception when it returns \<^verbatim>\<open>NULL\<close>;
  then, with a scaffold, \<^verbatim>\<open>list_remove(fake, tree->tree)\<close> and \<^verbatim>\<open>free_tree(fake)\<close>; and
  \<^verbatim>\<open>return ref(tree)\<close>, the cell that was passed.\<close>

definition tree_set_glue ::
  "ext \<Rightarrow> info \<Rightarrow> addr \<Rightarrow> addr \<Rightarrow> addr \<Rightarrow> store \<Rightarrow> (addr \<times> store) option" where
  "tree_set_glue E i path val tree s =
     (case str_of s path of
        None \<Rightarrow> None
      | Some p \<Rightarrow>
          (case str_of s val of
             None \<Rightarrow> None
           | Some x \<Rightarrow>
               (case tree_of s tree of
                  None \<Rightarrow> None
                | Some t \<Rightarrow>
                    (let (fake, s1) =
                           (if t = None
                            then (let (a, h) = make_tree None None None None (trees s)
                                  in (Some a, set_tree tree (Some a) (s\<lparr>trees := h\<rparr>)))
                            else (None, s));
                         (h2, r) = tree_set E (trees s1) (tree_ptr s1 tree) p x;
                         s2 = s1\<lparr>trees := h2\<rparr>
                     in if r = None then Some (make_exn_value i (set_msg p x) s2)
                        else
                          (case fake of
                             None \<Rightarrow> Some (tree, s2)
                           | Some f \<Rightarrow>
                               (case list_remove f (tree_ptr s2 tree) (trees s2) of
                                  None \<Rightarrow> None
                                | Some (head, h3) \<Rightarrow>
                                    (case free_tree h3 (Some f) of
                                       None \<Rightarrow> None
                                     | Some h4 \<Rightarrow>
                                         Some (tree, set_tree tree head (s2\<lparr>trees := h4\<rparr>)))))))))"

definition insert_msg :: "string \<Rightarrow> string \<Rightarrow> string" where
  "insert_msg l p = ''Tree insert of '' @ l @ '' at '' @ p @ '' failed''"

text \<open>\<^verbatim>\<open>tree_insert_glue\<close>: \<^verbatim>\<open>tree_insert\<close> gets the address of \<^verbatim>\<open>tree->tree\<close> and may assign
  to it. \<^verbatim>\<open>tree_insa_glue\<close> inserts after (\<^verbatim>\<open>before = 0\<close>), \<^verbatim>\<open>tree_insb_glue\<close> before.\<close>

definition tree_insert_glue ::
  "ext \<Rightarrow> info \<Rightarrow> addr \<Rightarrow> addr \<Rightarrow> addr \<Rightarrow> bool \<Rightarrow> store \<Rightarrow> (addr \<times> store) option" where
  "tree_insert_glue E i label path tree before s =
     (case str_of s label of
        None \<Rightarrow> None
      | Some l \<Rightarrow>
          (case str_of s path of
             None \<Rightarrow> None
           | Some p \<Rightarrow>
               (case tree_of s tree of
                  None \<Rightarrow> None
                | Some t \<Rightarrow>
                    (let (h1, head, r) = tree_insert E (trees s) t p l before;
                         s1 = set_tree tree head (s\<lparr>trees := h1\<rparr>)
                     in if r \<noteq> 0 then Some (make_exn_value i (insert_msg l p) s1)
                        else Some (tree, s1)))))"

definition tree_insa_glue :: "ext \<Rightarrow> info \<Rightarrow> addr \<Rightarrow> addr \<Rightarrow> addr \<Rightarrow> store \<Rightarrow> (addr \<times> store) option" where
  "tree_insa_glue E i label path tree s = tree_insert_glue E i label path tree False s"

definition tree_insb_glue :: "ext \<Rightarrow> info \<Rightarrow> addr \<Rightarrow> addr \<Rightarrow> addr \<Rightarrow> store \<Rightarrow> (addr \<times> store) option" where
  "tree_insb_glue E i label path tree s = tree_insert_glue E i label path tree True s"

definition rm_msg :: "string \<Rightarrow> string" where
  "rm_msg p = ''Tree rm of '' @ p @ '' failed''"

text \<open>\<^verbatim>\<open>tree_rm_glue\<close>: \<^verbatim>\<open>tree_rm\<close> gets the address of \<^verbatim>\<open>tree->tree\<close>; only the result -1
  is a failure.\<close>

definition tree_rm_glue :: "ext \<Rightarrow> info \<Rightarrow> addr \<Rightarrow> addr \<Rightarrow> store \<Rightarrow> (addr \<times> store) option" where
  "tree_rm_glue E i path tree s =
     (case str_of s path of
        None \<Rightarrow> None
      | Some p \<Rightarrow>
          (case tree_of s tree of
             None \<Rightarrow> None
           | Some t \<Rightarrow>
               (let (h1, head, r) = tree_rm E (trees s) t p;
                    s1 = set_tree tree head (s\<lparr>trees := h1\<rparr>)
                in if r = - 1 then Some (make_exn_value i (rm_msg p) s1)
                   else Some (tree, s1))))"

section \<open>Proper trees\<close>

text \<open>The shape of a heap structure without sharing or cycles: the address of each
  node, the shape beneath it and the shape of its later siblings.\<close>

datatype shape = No_tree | Tree_at addr shape shape

text \<open>\<open>shaped h t sh\<close>: from the pointer \<open>t\<close> on, the heap \<open>h\<close> holds nodes linked as \<open>sh\<close>
  says. With \<open>distinct (addrs sh)\<close> no node occurs twice, so \<open>t\<close> is \<^verbatim>\<open>NULL\<close> or a tree.\<close>

fun shaped :: "theap \<Rightarrow> addr option \<Rightarrow> shape \<Rightarrow> bool" where
  "shaped h None No_tree = True"
| "shaped h (Some a) (Tree_at b c n) =
     (a = b \<and>
      (case nodes h a of
         None \<Rightarrow> False
       | Some nd \<Rightarrow> shaped h (tree_children nd) c \<and> shaped h (tree_next nd) n))"
| "shaped h None (Tree_at b c n) = False"
| "shaped h (Some a) No_tree = False"

fun addrs :: "shape \<Rightarrow> addr list" where
  "addrs No_tree = []"
| "addrs (Tree_at b c n) = b # addrs c @ addrs n"

text \<open>The heap without the nodes at the addresses \<open>as\<close>.\<close>

definition drop_nodes :: "addr list \<Rightarrow> theap \<Rightarrow> theap" where
  "drop_nodes as h = h\<lparr>nodes := (\<lambda>a. if a \<in> set as then None else nodes h a)\<rparr>"

section \<open>The assignment of the tree module\<close>







section \<open>A small engine and tree module\<close>

text \<open>Concrete collaborators, to run the glue on concrete inputs. The engine reads one
  word: it fails at the first blank, with the word read so far as the partial tree.
  The tree module knows one-segment paths.\<close>

definition demo_format_pos :: "string \<Rightarrow> int \<Rightarrow> string option" where
  "demo_format_pos text p =
     (if nat p \<le> length text then Some (take (nat p) text @ ''|=|'' @ drop (nat p) text)
      else None)"

definition demo_print_tree :: "theap \<Rightarrow> addr \<Rightarrow> string" where
  "demo_print_tree h a =
     (case nodes h a of
        None \<Rightarrow> []
      | Some n \<Rightarrow> ''/'' @ (case tree_label n of None \<Rightarrow> ''(none)'' | Some l \<Rightarrow> l))"

definition demo_lns_get ::
  "theap \<Rightarrow> info \<Rightarrow> lens \<Rightarrow> string \<Rightarrow> theap \<times> addr option \<times> lns_error option" where
  "demo_lns_get h i l text =
     (let w = takeWhile (\<lambda>c. c \<noteq> CHR '' '') text
      in if w = []
         then (h, None, Some \<lparr>err_lens = Some l, err_pos = 0, err_path = None,
                 err_message = ''no match''\<rparr>)
         else (let (a, h') = make_tree (Some w) None None None h
               in if w = text then (h', Some a, None)
                  else (h', Some a, Some \<lparr>err_lens = Some l, err_pos = int (length w),
                          err_path = None, err_message = ''Short iteration''\<rparr>)))"

definition demo_lns_put ::
  "theap \<Rightarrow> lens \<Rightarrow> addr option \<Rightarrow> string \<Rightarrow> theap \<times> string \<times> lns_error option" where
  "demo_lns_put h l t text =
     (case t of
        None \<Rightarrow> (h, ''#'', Some \<lparr>err_lens = Some l, err_pos = - 1, err_path = Some ''/'',
                   err_message = ''no tree''\<rparr>)
      | Some a \<Rightarrow>
          (case nodes h a of
             None \<Rightarrow> (h, [], Some \<lparr>err_lens = None, err_pos = - 1, err_path = Some ''/'',
                        err_message = ''no node''\<rparr>)
           | Some n \<Rightarrow>
               (case tree_label n of
                  None \<Rightarrow> (h, [], Some \<lparr>err_lens = Some l, err_pos = - 1, err_path = Some ''/'',
                             err_message = ''no label''\<rparr>)
                | Some w \<Rightarrow> (h, w, None))))"

definition demo_tree_set :: "theap \<Rightarrow> addr option \<Rightarrow> string \<Rightarrow> string \<Rightarrow> theap \<times> addr option" where
  "demo_tree_set h root p x =
     (if p = [] then (h, None)
      else
        (case root of
           None \<Rightarrow> (h, None)
         | Some r \<Rightarrow>
             (case nodes h r of
                None \<Rightarrow> (h, None)
              | Some n \<Rightarrow>
                  if tree_label n = Some p
                  then (h\<lparr>nodes := (nodes h)(r \<mapsto> n\<lparr>tree_value := Some x\<rparr>)\<rparr>, Some r)
                  else if tree_next n = None
                  then (let (a, h') = make_tree (Some p) (Some x) None None h
                        in (set_next r (Some a) h', Some a))
                  else (h, None))))"

definition demo_tree_insert ::
  "theap \<Rightarrow> addr option \<Rightarrow> string \<Rightarrow> string \<Rightarrow> bool \<Rightarrow> theap \<times> addr option \<times> int" where
  "demo_tree_insert h head p l before =
     (case head of
        None \<Rightarrow> (h, head, - 1)
      | Some r \<Rightarrow>
          (case nodes h r of
             None \<Rightarrow> (h, head, - 1)
           | Some n \<Rightarrow>
               if tree_label n = Some p
               then (let (a, h') = make_tree (Some l) None None None h
                     in if before then (set_next a head h', Some a, 0)
                        else (set_next r (Some a) (set_next a (tree_next n) h'), head, 0))
               else (h, head, - 1)))"

definition demo_tree_rm :: "theap \<Rightarrow> addr option \<Rightarrow> string \<Rightarrow> theap \<times> addr option \<times> int" where
  "demo_tree_rm h head p =
     (case head of
        None \<Rightarrow> (h, head, - 1)
      | Some r \<Rightarrow>
          (case nodes h r of
             None \<Rightarrow> (h, head, - 1)
           | Some n \<Rightarrow>
               if tree_label n = Some p
               then (h\<lparr>nodes := (nodes h)(r := None)\<rparr>, tree_next n, 1)
               else (h, head, - 1)))"

definition demo_ext :: ext where
  "demo_ext = \<lparr>format_info = info_file, format_pos = demo_format_pos, null_text = ''(null)'',
     print_tree = demo_print_tree, lns_get = demo_lns_get, lns_put = demo_lns_put,
     tree_set = demo_tree_set, tree_insert = demo_tree_insert, tree_rm = demo_tree_rm\<rparr>"

definition info0 :: info where
  "info0 = \<lparr>info_file = ''t.aug'', info_first_line = 1, info_last_line = 1\<rparr>"

definition key_lens :: lens where
  "key_lens = \<lparr>lens_info = info0, lens_key = True, lens_value = False\<rparr>"

definition del_lens :: lens where
  "del_lens = \<lparr>lens_info = info0, lens_key = False, lens_value = False\<rparr>"

text \<open>A store with a few values: two lenses, a filter, four strings, an empty tree and a
  tree of one node labelled \<open>a\<close>.\<close>

definition demo_store :: store where
  "demo_store = \<lparr>cells = [0 \<mapsto> V_LENS info0 key_lens, 1 \<mapsto> V_LENS info0 del_lens,
       2 \<mapsto> V_FILTER info0 \<lparr>filter_glob = ''/etc/hosts'', filter_incl = True\<rparr>,
       3 \<mapsto> V_STRING info0 ''a'', 4 \<mapsto> V_STRING info0 ''ab cd'', 5 \<mapsto> V_STRING info0 [],
       6 \<mapsto> V_STRING info0 ''x'', 7 \<mapsto> V_TREE info0 None, 8 \<mapsto> V_TREE info0 (Some 0)],
     cell_brk = 9,
     trees = \<lparr>nodes = [0 \<mapsto> \<lparr>tree_label = Some ''a'', tree_value = None, tree_parent = None,
       tree_children = None, tree_next = None\<rparr>], node_brk = 1\<rparr>,
     bufs = Map.empty, buf_brk = 0, gensym_count = 0\<rparr>"






section \<open>Facts about the helpers\<close>

lemmas fmt_simps = fmt_d_def fmt_u_def fmt_s_def string_of_nat.simps digit_char_def

lemma make_exn_lns_error_cell:
  "make_exn_lns_error E i err text s =
     (cell_brk s,
      s\<lparr>cells := (cells s)(cell_brk s \<mapsto> V_EXN i \<lparr>exn_message = err_message err,
           exn_lines =
             (case err_lens err of None \<Rightarrow> [] | Some l \<Rightarrow> [lens_line E l]) @
             (if 0 \<le> err_pos err
              then pos_line (err_pos err) #
                   (case format_pos E text (err_pos err) of None \<Rightarrow> [] | Some c \<Rightarrow> [c])
              else [path_line E (err_path err)])\<rparr>),
        cell_brk := Suc (cell_brk s)\<rparr>)"
  by (simp add: make_exn_lns_error_def make_exn_value_def make_value_def exn_printf_line_def
        Let_def split: option.splits)

lemma xform_transform_cell:
  assumes "lens_of s l = Some lns" and "filter_of s f = Some flt"
  shows "xform_transform i l f s =
     Some (cell_brk s,
       s\<lparr>cells := (cells s)(cell_brk s \<mapsto>
            (if lens_value lns \<or> lens_key lns
             then V_EXN i \<lparr>exn_message = transform_msg lns, exn_lines = []\<rparr>
             else V_TRANSFORM i \<lparr>xform_lens = lns, xform_filter = flt\<rparr>)),
          cell_brk := Suc (cell_brk s)\<rparr>)"
  using assms by (simp add: xform_transform_def make_exn_value_def make_value_def)

lemma gensym_keeps_count:
  "gensym oom i prefix s = Some (r, s') \<Longrightarrow> gensym_count s' = gensym_count s"
  by (auto simp: gensym_def make_value_def split: option.splits if_splits)


lemma make_exn_value_cell:
  "make_exn_value i m s = (r, s') \<Longrightarrow>
   r = cell_brk s \<and> cells s' r = Some (V_EXN i \<lparr>exn_message = m, exn_lines = []\<rparr>)"
  by (auto simp: make_exn_value_def make_value_def)

lemma tree_of_cell: "tree_of s a = Some t \<Longrightarrow> \<exists>ti. cells s a = Some (V_TREE ti t)"
  by (auto simp: tree_of_def split: option.splits val.splits)

subsection \<open>Releasing trees\<close>

lemma free_tree_None: "free_tree h None = Some h"
  by (subst free_tree.simps) simp


lemma shaped_frame:
  "shaped h t sh \<Longrightarrow> (\<forall>a \<in> set (addrs sh). nodes h' a = nodes h a) \<Longrightarrow> shaped h' t sh"
proof (induction sh arbitrary: t)
  case No_tree
  then show ?case by (cases t) auto
next
  case (Tree_at b c n)
  then show ?case by (cases t) (auto split: option.splits)
qed

lemma drop_nodes_Nil: "drop_nodes [] h = h"
  by (simp add: drop_nodes_def)

lemma free_tree_shaped:
  "shaped h t sh \<Longrightarrow> distinct (addrs sh) \<Longrightarrow> free_tree h t = Some (drop_nodes (addrs sh) h)"
proof (induction sh arbitrary: h t)
  case No_tree
  then show ?case by (cases t) (auto simp: free_tree_None drop_nodes_Nil)
next
  case (Tree_at b c n)
  from Tree_at.prems(1) obtain nd where t: "t = Some b" and nd: "nodes h b = Some nd"
    and sc: "shaped h (tree_children nd) c" and sn: "shaped h (tree_next nd) n"
    by (cases t) (auto split: option.splits)
  from Tree_at.prems(2) have dc: "distinct (addrs c)" and dn: "distinct (addrs n)"
    and bc: "b \<notin> set (addrs c)" and bn: "b \<notin> set (addrs n)"
    and cn: "set (addrs c) \<inter> set (addrs n) = {}"
    by auto
  let ?h1 = "drop_nodes (addrs c) h"
  let ?h2 = "?h1\<lparr>nodes := (nodes ?h1)(b := None)\<rparr>"
  have c: "free_tree h (tree_children nd) = Some ?h1"
    by (rule Tree_at.IH(1) [OF sc dc])
  have "shaped ?h2 (tree_next nd) n"
    using sn bn cn by (auto intro!: shaped_frame [of h] simp: drop_nodes_def)
  then have n: "free_tree ?h2 (tree_next nd) = Some (drop_nodes (addrs n) ?h2)"
    by (rule Tree_at.IH(2) [OF _ dn])
  have e: "drop_nodes (addrs n) ?h2 = drop_nodes (addrs (Tree_at b c n)) h"
    by (auto simp: drop_nodes_def fun_eq_iff)
  show ?case
    unfolding t by (subst free_tree.simps) (simp add: nd c n e)
qed

subsection \<open>What each primitive computes\<close>


lemma lens_get_ok:
  assumes "lens_of s l = Some lns" and "str_of s str = Some text"
    and "lns_get E (trees s) i lns text = (h1, t, None)"
  shows "lens_get E i l str s =
     Some (cell_brk s, s\<lparr>cells := (cells s)(cell_brk s \<mapsto> V_TREE i t),
        cell_brk := Suc (cell_brk s), trees := h1\<rparr>)"
  using assms by (simp add: lens_get_def make_value_def)


lemma lens_put_cell:
  assumes "lens_of s l = Some lns" and "tree_of s tree = Some t" and "str_of s str = Some text"
    and "lns_put E (trees s) lns t text = (h1, out, err)"
  shows "lens_put E i l tree str s =
     Some (cell_brk s,
       s\<lparr>cells := (cells s)(cell_brk s \<mapsto>
            (case err of
               None \<Rightarrow> V_STRING i out
             | Some e \<Rightarrow> V_EXN i \<lparr>exn_message = err_message e,
                 exn_lines =
                   (case err_lens e of None \<Rightarrow> [] | Some x \<Rightarrow> [lens_line E x]) @
                   (if 0 \<le> err_pos e
                    then pos_line (err_pos e) #
                         (case format_pos E text (err_pos e) of None \<Rightarrow> [] | Some c \<Rightarrow> [c])
                    else [path_line E (err_path e)])\<rparr>)),
          cell_brk := Suc (cell_brk s), trees := h1,
          bufs := (bufs s)(buf_brk s := (case err of None \<Rightarrow> Some out | Some e \<Rightarrow> None)),
          buf_brk := Suc (buf_brk s)\<rparr>)"
  using assms
  by (cases err)
    (simp_all add: lens_put_def init_memstream_def stream_write_def ms_buf_def make_value_def
      make_exn_lns_error_cell free_buf_def)

lemma tree_set_glue_nonempty:
  assumes "str_of s path = Some p" and "str_of s val = Some x"
    and "tree_of s tree = Some (Some a)"
    and "tree_set E (trees s) (Some a) p x = (h2, r)"
  shows "tree_set_glue E i path val tree s =
     Some (case r of
             None \<Rightarrow> make_exn_value i (set_msg p x) (s\<lparr>trees := h2\<rparr>)
           | Some n \<Rightarrow> (tree, s\<lparr>trees := h2\<rparr>))"
proof -
  from assms(3) obtain ti where "cells s tree = Some (V_TREE ti (Some a))"
    by (auto dest: tree_of_cell)
  with assms show ?thesis
    by (cases r) (simp_all add: tree_set_glue_def tree_ptr_def)
qed

lemma tree_set_glue_empty_fail:
  assumes "str_of s path = Some p" and "str_of s val = Some x"
    and "cells s tree = Some (V_TREE ti None)"
    and "tree_set E (snd (make_tree None None None None (trees s)))
           (Some (node_brk (trees s))) p x = (h2, None)"
  shows "tree_set_glue E i path val tree s =
     Some (make_exn_value i (set_msg p x)
       (s\<lparr>cells := (cells s)(tree \<mapsto> V_TREE ti (Some (node_brk (trees s)))), trees := h2\<rparr>))"
  using assms
  by (simp add: tree_set_glue_def tree_of_def tree_ptr_def set_tree_def make_tree_def)


lemma tree_set_glue_empty_unfold:
  assumes "str_of s path = Some p" and "str_of s val = Some x"
    and "cells s tree = Some (V_TREE ti None)"
    and "tree_set E (snd (make_tree None None None None (trees s)))
           (Some (node_brk (trees s))) p x = (h2, Some n)"
  shows "tree_set_glue E i path val tree s =
     (case list_remove (node_brk (trees s)) (Some (node_brk (trees s))) h2 of
        None \<Rightarrow> None
      | Some (head, h3) \<Rightarrow>
          (case free_tree h3 (Some (node_brk (trees s))) of
             None \<Rightarrow> None
           | Some h4 \<Rightarrow>
               Some (tree, s\<lparr>trees := h4, cells := (cells s)(tree \<mapsto> V_TREE ti head)\<rparr>)))"
  using assms
  by (simp add: tree_set_glue_def tree_of_def tree_ptr_def set_tree_def make_tree_def
        split: option.split)

lemma tree_insert_glue_cell:
  assumes "str_of s label = Some l" and "str_of s path = Some p"
    and "cells s tree = Some (V_TREE ti t)"
    and "tree_insert E (trees s) t p l before = (h1, head, r)"
  shows "tree_insert_glue E i label path tree before s =
     Some (if r \<noteq> 0
           then make_exn_value i (insert_msg l p)
                  (s\<lparr>trees := h1, cells := (cells s)(tree \<mapsto> V_TREE ti head)\<rparr>)
           else (tree, s\<lparr>trees := h1, cells := (cells s)(tree \<mapsto> V_TREE ti head)\<rparr>))"
  using assms by (simp add: tree_insert_glue_def tree_of_def set_tree_def)

lemma tree_rm_glue_cell:
  assumes "str_of s path = Some p"
    and "cells s tree = Some (V_TREE ti t)"
    and "tree_rm E (trees s) t p = (h1, head, r)"
  shows "tree_rm_glue E i path tree s =
     Some (if r = - 1
           then make_exn_value i (rm_msg p)
                  (s\<lparr>trees := h1, cells := (cells s)(tree \<mapsto> V_TREE ti head)\<rparr>)
           else (tree, s\<lparr>trees := h1, cells := (cells s)(tree \<mapsto> V_TREE ti head)\<rparr>))"
  using assms by (simp add: tree_rm_glue_def tree_of_def set_tree_def)

lemma scaffold_removed:
  assumes "(case nodes h2 f of
          None \<Rightarrow> None
        | Some sc \<Rightarrow>
            (case free_tree (set_next f None h2) (Some f) of
               None \<Rightarrow> None
             | Some h4 \<Rightarrow>
                 Some (tree, s\<lparr>trees := h4,
                   cells := (cells s)(tree \<mapsto> V_TREE ti (tree_next sc))\<rparr>))) =
        Some (r, s')"
  shows "r = tree \<and> (\<exists>sc h4. nodes h2 f = Some sc \<and>
     free_tree (set_next f None h2) (Some f) = Some h4 \<and>
     s' = s\<lparr>trees := h4, cells := (cells s)(tree \<mapsto> V_TREE ti (tree_next sc))\<rparr>)"
proof (cases "nodes h2 f")
  case None
  with assms show ?thesis by simp
next
  case (Some sc)
  show ?thesis
  proof (cases "free_tree (set_next f None h2) (Some f)")
    case None
    with assms Some show ?thesis by simp
  next
    case (Some h4)
    with assms \<open>nodes h2 f = Some sc\<close> show ?thesis by auto
  qed
qed

lemma tree_set_glue_empty_cases:
  assumes "str_of s path = Some p" and "str_of s val = Some x"
    and "cells s tree = Some (V_TREE ti None)"
    and "tree_set E (snd (make_tree None None None None (trees s)))
           (Some (node_brk (trees s))) p x = (h2, Some n)"
  shows "tree_set_glue E i path val tree s =
     (case nodes h2 (node_brk (trees s)) of
        None \<Rightarrow> None
      | Some sc \<Rightarrow>
          (case free_tree (set_next (node_brk (trees s)) None h2) (Some (node_brk (trees s))) of
             None \<Rightarrow> None
           | Some h4 \<Rightarrow>
               Some (tree, s\<lparr>trees := h4,
                 cells := (cells s)(tree \<mapsto> V_TREE ti (tree_next sc))\<rparr>)))"
  by (simp add: tree_set_glue_empty_unfold [OF assms] list_remove_def split: option.split)

lemma tree_set_glue_empty_shaped:
  assumes "str_of s path = Some p" and "str_of s val = Some x"
    and "cells s tree = Some (V_TREE ti None)"
    and "tree_set E (snd (make_tree None None None None (trees s)))
           (Some (node_brk (trees s))) p x = (h2, Some n)"
    and "nodes h2 (node_brk (trees s)) = Some sc"
    and "shaped (set_next (node_brk (trees s)) None h2) (Some (node_brk (trees s))) sh"
    and "distinct (addrs sh)"
  shows "tree_set_glue E i path val tree s =
     Some (tree, s\<lparr>trees := drop_nodes (addrs sh) (set_next (node_brk (trees s)) None h2),
       cells := (cells s)(tree \<mapsto> V_TREE ti (tree_next sc))\<rparr>)"
  using tree_set_glue_empty_cases [OF assms(1-4), of i] assms(5)
    free_tree_shaped [OF assms(6,7)]
  by simp

subsection \<open>A returned tree value is the argument\<close>

lemma tree_set_same_cell:
  assumes "tree_set_glue E i path val tree s = Some (r, s')"
    and "cells s' r = Some (V_TREE j t')"
  shows "r = tree \<and>
     (\<exists>ti t p x. cells s tree = Some (V_TREE ti t) \<and> str_of s path = Some p \<and>
        str_of s val = Some x \<and>
        (case t of
           Some a \<Rightarrow>
             (\<exists>h2 n. tree_set E (trees s) (Some a) p x = (h2, Some n) \<and> s' = s\<lparr>trees := h2\<rparr>)
         | None \<Rightarrow>
             (\<exists>h2 n sc h4.
                tree_set E (snd (make_tree None None None None (trees s)))
                  (Some (node_brk (trees s))) p x = (h2, Some n) \<and>
                nodes h2 (node_brk (trees s)) = Some sc \<and>
                free_tree (set_next (node_brk (trees s)) None h2) (Some (node_brk (trees s))) =
                  Some h4 \<and>
                s' = s\<lparr>trees := h4,
                  cells := (cells s)(tree \<mapsto> V_TREE ti (tree_next sc))\<rparr>)))"
proof -
  from assms(1) obtain p x t where p: "str_of s path = Some p" and x: "str_of s val = Some x"
    and t: "tree_of s tree = Some t"
    by (auto simp: tree_set_glue_def split: option.splits)
  from t obtain ti where c: "cells s tree = Some (V_TREE ti t)"
    by (auto dest: tree_of_cell)
  show ?thesis
  proof (cases t)
    case (Some a)
    obtain h2 k where k: "tree_set E (trees s) (Some a) p x = (h2, k)"
      by (cases "tree_set E (trees s) (Some a) p x") auto
    from t Some have t': "tree_of s tree = Some (Some a)" by simp
    from assms tree_set_glue_nonempty [OF p x t' k, of i] p x c k Some show ?thesis
      by (cases k) (auto dest: make_exn_value_cell)
  next
    case None
    let ?f = "node_brk (trees s)"
    obtain h2 k where k: "tree_set E (snd (make_tree None None None None (trees s)))
           (Some ?f) p x = (h2, k)"
      by (cases "tree_set E (snd (make_tree None None None None (trees s))) (Some ?f) p x") auto
    from c None have c': "cells s tree = Some (V_TREE ti None)" by simp
    show ?thesis
    proof (cases k)
      case None
      with assms tree_set_glue_empty_fail [OF p x c', of E h2 i] k show ?thesis
        by (auto dest: make_exn_value_cell)
    next
      case (Some n)
      with k have k': "tree_set E (snd (make_tree None None None None (trees s)))
           (Some ?f) p x = (h2, Some n)" by simp
      have "(case nodes h2 ?f of
          None \<Rightarrow> None
        | Some sc \<Rightarrow>
            (case free_tree (set_next ?f None h2) (Some ?f) of
               None \<Rightarrow> None
             | Some h4 \<Rightarrow>
                 Some (tree, s\<lparr>trees := h4,
                   cells := (cells s)(tree \<mapsto> V_TREE ti (tree_next sc))\<rparr>))) =
        Some (r, s')"
        using assms(1) by (simp only: tree_set_glue_empty_cases [OF p x c' k'])
      from scaffold_removed [OF this] obtain sc h4 where "r = tree"
        and "nodes h2 ?f = Some sc"
        and "free_tree (set_next ?f None h2) (Some ?f) = Some h4"
        and "s' = s\<lparr>trees := h4, cells := (cells s)(tree \<mapsto> V_TREE ti (tree_next sc))\<rparr>"
        by blast
      with p x c' k' \<open>t = None\<close> show ?thesis
        by auto
    qed
  qed
qed

lemma tree_insert_same_cell:
  assumes "tree_insert_glue E i label path tree before s = Some (r, s')"
    and "cells s' r = Some (V_TREE j t')"
  shows "r = tree \<and>
     (\<exists>ti t l p h1 head. cells s tree = Some (V_TREE ti t) \<and> str_of s label = Some l \<and>
        str_of s path = Some p \<and>
        tree_insert E (trees s) t p l before = (h1, head, 0) \<and>
        s' = s\<lparr>trees := h1, cells := (cells s)(tree \<mapsto> V_TREE ti head)\<rparr>)"
proof -
  from assms(1) obtain l p t where l: "str_of s label = Some l" and p: "str_of s path = Some p"
    and t: "tree_of s tree = Some t"
    by (auto simp: tree_insert_glue_def split: option.splits)
  from t obtain ti where c: "cells s tree = Some (V_TREE ti t)"
    by (auto dest: tree_of_cell)
  obtain h1 head k where k: "tree_insert E (trees s) t p l before = (h1, head, k)"
    by (cases "tree_insert E (trees s) t p l before") auto
  show ?thesis
  proof (cases "k \<noteq> 0")
    case True
    with assms tree_insert_glue_cell [OF l p c k, of i] show ?thesis
      by (auto dest: make_exn_value_cell)
  next
    case False
    with assms tree_insert_glue_cell [OF l p c k, of i] l p c k show ?thesis
      by auto
  qed
qed

lemma tree_rm_same_cell:
  assumes "tree_rm_glue E i path tree s = Some (r, s')"
    and "cells s' r = Some (V_TREE j t')"
  shows "r = tree \<and>
     (\<exists>ti t p h1 head k. cells s tree = Some (V_TREE ti t) \<and> str_of s path = Some p \<and>
        tree_rm E (trees s) t p = (h1, head, k) \<and> k \<noteq> - 1 \<and>
        s' = s\<lparr>trees := h1, cells := (cells s)(tree \<mapsto> V_TREE ti head)\<rparr>)"
proof -
  from assms(1) obtain p t where p: "str_of s path = Some p"
    and t: "tree_of s tree = Some t"
    by (auto simp: tree_rm_glue_def split: option.splits)
  from t obtain ti where c: "cells s tree = Some (V_TREE ti t)"
    by (auto dest: tree_of_cell)
  obtain h1 head k where k: "tree_rm E (trees s) t p = (h1, head, k)"
    by (cases "tree_rm E (trees s) t p") auto
  show ?thesis
  proof (cases "k = - 1")
    case True
    with assms tree_rm_glue_cell [OF p c k, of i] show ?thesis
      by (auto dest: make_exn_value_cell)
  next
    case False
    with assms tree_rm_glue_cell [OF p c k, of i] p c k show ?thesis
      by auto
  qed
qed

subsection \<open>The assignment on a scaffold\<close>







section \<open>Symbol generation\<close>

text \<open>
  C2 says that N sequential calls to \<^verbatim>\<open>gensym\<close> with one prefix return N pairwise distinct
  strings, the prefix followed by an increasing counter. \<^verbatim>\<open>gensym\<close> prints \<^verbatim>\<open>count\<close> and
  never writes it (\<open>gensym_keeps_count\<close>). Here two calls in a row with the prefix \<open>a\<close>,
  from \<^verbatim>\<open>count = 0\<close>: two different cells, both holding \<open>a0\<close>, and \<^verbatim>\<open>count\<close> still 0.
\<close>

theorem gensym_repeats:
  "\<forall>i. (case gensym False i 3 demo_store of
          Some (Some v1, s1) \<Rightarrow>
            (case gensym False i 3 s1 of
               Some (Some v2, s2) \<Rightarrow>
                 v1 \<noteq> v2 \<and> cells s2 v1 = Some (V_STRING i ''a0'') \<and>
                 cells s2 v2 = Some (V_STRING i ''a0'') \<and> gensym_count s2 = 0
             | _ \<Rightarrow> False)
        | _ \<Rightarrow> False)"
  by (simp add: gensym_def str_of_def make_value_def demo_store_def fmt_simps)

section \<open>Transforms\<close>

text \<open>
  C6: \<^verbatim>\<open>xform_transform\<close> applied to a lens and a filter returns an exception exactly when
  the lens leaves a key or a value behind, and a transform of that lens and that filter
  otherwise. The message names \<open>key\<close> whenever the lens leaves a key, and \<open>value\<close> when it
  leaves a value and no key.
\<close>

theorem xform_transform_rejects:
  assumes "lens_of s l = Some lns" and "filter_of s f = Some flt"
  shows "\<exists>v s'. xform_transform i l f s = Some (v, s') \<and>
     (if lens_key lns \<or> lens_value lns
      then cells s' v = Some (V_EXN i \<lparr>exn_message =
             ''Can not build a transform from a lens that leaves a '' @
             (if lens_key lns then ''key'' else ''value'') @ '' behind'', exn_lines = []\<rparr>)
      else cells s' v = Some (V_TRANSFORM i \<lparr>xform_lens = lns, xform_filter = flt\<rparr>))"
  using assms by (auto simp: xform_transform_cell transform_msg_def)

text \<open>A key lens is refused with the message that names \<open>key\<close>; a lens that leaves
  nothing behind gives the transform.\<close>

theorem xform_transform_rejects_witness:
  "(\<exists>s'. xform_transform info0 0 2 demo_store = Some (9, s') \<and>
     cells s' 9 = Some (V_EXN info0 \<lparr>exn_message =
       ''Can not build a transform from a lens that leaves a key behind'', exn_lines = []\<rparr>)) \<and>
   (\<exists>s'. xform_transform info0 1 2 demo_store = Some (9, s') \<and>
     cells s' 9 = Some (V_TRANSFORM info0 \<lparr>xform_lens = del_lens,
       xform_filter = \<lparr>filter_glob = ''/etc/hosts'', filter_incl = True\<rparr>\<rparr>))"
  using xform_transform_rejects [of demo_store 0 key_lens 2
      "\<lparr>filter_glob = ''/etc/hosts'', filter_incl = True\<rparr>" info0]
    xform_transform_rejects [of demo_store 1 del_lens 2
      "\<lparr>filter_glob = ''/etc/hosts'', filter_incl = True\<rparr>" info0]
  by (auto simp: lens_of_def filter_of_def demo_store_def key_lens_def del_lens_def
        xform_transform_def make_exn_value_def make_value_def)

section \<open>The exception built from a lens error\<close>

text \<open>
  C7 says that the lines are, in this order: the line of the lens when the error has
  one; then the offset line and the context when the error has an offset; otherwise,
  when the error has a path, the path line. \<open>make_exn_lns_error_cell\<close> gives the lines for
  every error: where the error has an offset or a path they are the claimed ones. For
  an error of a lens with \<^verbatim>\<open>pos = -1\<close> and a \<^verbatim>\<open>NULL\<close> path the claimed lines end with the
  line of the lens; the function appends a path line behind it.
\<close>

theorem exn_lens_then_null_path:
  "cells (snd (make_exn_lns_error demo_ext info0
      \<lparr>err_lens = Some key_lens, err_pos = - 1, err_path = None, err_message = ''no match''\<rparr>
      ''ab cd'' demo_store)) 9 =
   Some (V_EXN info0 \<lparr>exn_message = ''no match'',
     exn_lines = [''Lens: t.aug'', ''Error encountered at path (null)'']\<rparr>)"
  by (simp add: make_exn_lns_error_cell lens_line_def path_line_def fmt_s_def demo_ext_def
        demo_store_def key_lens_def info0_def)

text \<open>
  C9 says that an error with a negative offset and no path gives neither an offset line
  nor a path line. The \<^verbatim>\<open>else\<close> branch of \<^verbatim>\<open>make_exn_lns_error\<close> does not test
  \<^verbatim>\<open>err->path\<close>: for every negative offset \<open>- 1 - n\<close> and a \<^verbatim>\<open>NULL\<close> path, the exception ends
  with the path line, in which \<^verbatim>\<open>%s\<close> has printed the \<^verbatim>\<open>NULL\<close> pointer.
\<close>

theorem exn_null_path_line:
  "\<forall>E i l n m text s.
     cells (snd (make_exn_lns_error E i
        \<lparr>err_lens = l, err_pos = - 1 - int n, err_path = None, err_message = m\<rparr> text s))
       (cell_brk s) =
     Some (V_EXN i \<lparr>exn_message = m,
       exn_lines = (case l of None \<Rightarrow> [] | Some x \<Rightarrow> [''Lens: '' @ format_info E (lens_info x)]) @
         [''Error encountered at path '' @ null_text E]\<rparr>)"
  by (simp add: make_exn_lns_error_cell lens_line_def path_line_def fmt_s_def
        split: option.splits)

section \<open>get\<close>




section \<open>put\<close>




text \<open>What \<^verbatim>\<open>get\<close> followed by \<^verbatim>\<open>put\<close> of its tree returns is what the engine's
  \<^verbatim>\<open>lns_put\<close> writes for the tree of the engine's \<^verbatim>\<open>lns_get\<close>.\<close>

lemma lens_put_after_lens_get:
  assumes "lens_of s l = Some lns" and "str_of s str = Some text"
    and "l < cell_brk s" and "str < cell_brk s"
    and "lns_get E (trees s) i lns text = (h1, t, None)"
    and "lns_put E h1 lns t text = (h2, out, None)"
  shows "\<exists>s1 s2. lens_get E i l str s = Some (cell_brk s, s1) \<and>
     lens_put E i' l (cell_brk s) str s1 = Some (Suc (cell_brk s), s2) \<and>
     cells s2 (Suc (cell_brk s)) = Some (V_STRING i' out)"
proof -
  let ?s1 = "s\<lparr>cells := (cells s)(cell_brk s \<mapsto> V_TREE i t),
        cell_brk := Suc (cell_brk s), trees := h1\<rparr>"
  have g: "lens_get E i l str s = Some (cell_brk s, ?s1)"
    using assms by (simp add: lens_get_ok)
  have l1: "lens_of ?s1 l = Some lns" and s1: "str_of ?s1 str = Some text"
    and t1: "tree_of ?s1 (cell_brk s) = Some t"
    using assms by (simp_all add: lens_of_def str_of_def tree_of_def)
  have p1: "lns_put E (trees ?s1) lns t text = (h2, out, None)"
    using assms by simp
  from lens_put_cell [OF l1 t1 s1 p1, of i'] g show ?thesis
    by simp
qed

section \<open>set, insert and remove\<close>



text \<open>
  C10: \<^verbatim>\<open>set\<close> on a tree value whose tree is \<^verbatim>\<open>NULL\<close>, when \<^verbatim>\<open>tree_set\<close> returns \<^verbatim>\<open>NULL\<close>.
  \<^verbatim>\<open>tree_set_glue\<close> returns a new exception value and leaves before the clean-up: the
  tree value, which held \<^verbatim>\<open>NULL\<close>, now holds the scaffold.
\<close>

theorem tree_set_failure_keeps_scaffold:
  assumes "str_of s path = Some p" and "str_of s val = Some x"
    and "cells s tree = Some (V_TREE ti None)" and "tree < cell_brk s"
    and "tree_set E (snd (make_tree None None None None (trees s)))
           (Some (node_brk (trees s))) p x = (h2, None)"
  shows "\<exists>s'. tree_set_glue E i path val tree s = Some (cell_brk s, s') \<and>
     cells s' (cell_brk s) = Some (V_EXN i \<lparr>exn_message =
       ''Tree set of '' @ p @ '' to '' @ [CHR 0x27] @ x @ [CHR 0x27] @ '' failed'',
       exn_lines = []\<rparr>) \<and>
     cells s' tree = Some (V_TREE ti (Some (node_brk (trees s)))) \<and>
     trees s' = h2"
  using assms
  by (simp add: tree_set_glue_empty_fail make_exn_value_def make_value_def set_msg_def)

text \<open>The demo tree module refuses the empty path: the tree of cell 7 was empty and is
  the scaffold node 1 afterwards.\<close>

theorem tree_set_failure_keeps_scaffold_witness:
  "\<exists>s'. tree_set_glue demo_ext info0 5 6 7 demo_store = Some (9, s') \<and>
     cells s' 9 = Some (V_EXN info0 \<lparr>exn_message = ''Tree set of  to '' @ [CHR 0x27] @ ''x'' @
       [CHR 0x27] @ '' failed'', exn_lines = []\<rparr>) \<and>
     cells demo_store 7 = Some (V_TREE info0 None) \<and>
     cells s' 7 = Some (V_TREE info0 (Some 1)) \<and>
     nodes (trees s') 1 = Some \<lparr>tree_label = None, tree_value = None, tree_parent = None,
       tree_children = None, tree_next = None\<rparr>"
proof -
  have p: "str_of demo_store 5 = Some []" and x: "str_of demo_store 6 = Some ''x''"
    by (simp_all add: str_of_def demo_store_def)
  have t: "cells demo_store 7 = Some (V_TREE info0 None)" and b: "7 < cell_brk demo_store"
    by (simp_all add: demo_store_def)
  have c: "tree_set demo_ext (snd (make_tree None None None None (trees demo_store)))
        (Some (node_brk (trees demo_store))) [] ''x'' =
      (snd (make_tree None None None None (trees demo_store)), None)"
    by (simp add: demo_ext_def demo_tree_set_def)
  from tree_set_failure_keeps_scaffold [OF p x t b c, of info0] show ?thesis
    by (auto simp: demo_store_def make_tree_def)
qed

text \<open>
  C8: when the tree module succeeds (\<^verbatim>\<open>tree_set\<close> returns a node, \<^verbatim>\<open>tree_insert\<close> returns 0,
  \<^verbatim>\<open>tree_rm\<close> does not return -1), \<^verbatim>\<open>set\<close>, \<^verbatim>\<open>insert\<close> (before or after, by \<open>before\<close>)
  and \<^verbatim>\<open>rm\<close> return the cell \<open>tree\<close> that was passed, and the store differs from the one
  before in the heap, which is the one the tree module mutated, and in the pointer
  \<^verbatim>\<open>tree->tree\<close> of that cell: for \<^verbatim>\<open>set\<close> on a tree that is not empty neither changes, for
  \<^verbatim>\<open>set\<close> on an empty tree the pointer is what \<^verbatim>\<open>tree_set\<close> linked behind the scaffold and
  the heap has lost the scaffold, for \<^verbatim>\<open>insert\<close> and \<^verbatim>\<open>rm\<close> the pointer is the new head.
  Whoever holds the address \<open>tree\<close> reads the edited tree. Conversely a call that
  returns a tree value returns the cell \<open>tree\<close>, allocates no cell and changes no other
  cell.
\<close>

theorem tree_edit_in_place:
  "(cells s tree = Some (V_TREE ti (Some a)) \<and> str_of s path = Some p \<and>
    str_of s val = Some x \<and> tree_set E (trees s) (Some a) p x = (hs, Some n) \<longrightarrow>
      tree_set_glue E i path val tree s = Some (tree, s\<lparr>trees := hs\<rparr>)) \<and>
   (cells s tree = Some (V_TREE ti None) \<and> str_of s path = Some p \<and>
    str_of s val = Some x \<and>
    tree_set E (snd (make_tree None None None None (trees s)))
      (Some (node_brk (trees s))) p x = (hs, Some n) \<and>
    nodes hs (node_brk (trees s)) = Some sc \<and>
    shaped (set_next (node_brk (trees s)) None hs) (Some (node_brk (trees s))) sh \<and>
    distinct (addrs sh) \<longrightarrow>
      tree_set_glue E i path val tree s =
        Some (tree, s\<lparr>trees := drop_nodes (addrs sh) (set_next (node_brk (trees s)) None hs),
          cells := (cells s)(tree \<mapsto> V_TREE ti (tree_next sc))\<rparr>)) \<and>
   (cells s tree = Some (V_TREE ti t) \<and> str_of s label = Some l \<and> str_of s path = Some p \<and>
    tree_insert E (trees s) t p l before = (hm, head, 0) \<longrightarrow>
      tree_insert_glue E i label path tree before s =
        Some (tree, s\<lparr>trees := hm, cells := (cells s)(tree \<mapsto> V_TREE ti head)\<rparr>)) \<and>
   (cells s tree = Some (V_TREE ti t) \<and> str_of s path = Some p \<and>
    tree_rm E (trees s) t p = (hm, head, k) \<and> k \<noteq> - 1 \<longrightarrow>
      tree_rm_glue E i path tree s =
        Some (tree, s\<lparr>trees := hm, cells := (cells s)(tree \<mapsto> V_TREE ti head)\<rparr>)) \<and>
   (cells s' r = Some (V_TREE j t') \<and>
    (tree_set_glue E i path val tree s = Some (r, s') \<or>
     tree_insert_glue E i label path tree before s = Some (r, s') \<or>
     tree_rm_glue E i path tree s = Some (r, s')) \<longrightarrow>
      r = tree \<and> cell_brk s' = cell_brk s \<and>
      (\<forall>c. c \<noteq> tree \<longrightarrow> cells s' c = cells s c))"
proof (intro conjI impI)
  assume "cells s tree = Some (V_TREE ti (Some a)) \<and> str_of s path = Some p \<and>
    str_of s val = Some x \<and> tree_set E (trees s) (Some a) p x = (hs, Some n)"
  then show "tree_set_glue E i path val tree s = Some (tree, s\<lparr>trees := hs\<rparr>)"
    using tree_set_glue_nonempty [of s path p val x tree a E hs "Some n" i]
    by (simp add: tree_of_def)
next
  assume "cells s tree = Some (V_TREE ti None) \<and> str_of s path = Some p \<and>
    str_of s val = Some x \<and>
    tree_set E (snd (make_tree None None None None (trees s)))
      (Some (node_brk (trees s))) p x = (hs, Some n) \<and>
    nodes hs (node_brk (trees s)) = Some sc \<and>
    shaped (set_next (node_brk (trees s)) None hs) (Some (node_brk (trees s))) sh \<and>
    distinct (addrs sh)"
  then show "tree_set_glue E i path val tree s =
        Some (tree, s\<lparr>trees := drop_nodes (addrs sh) (set_next (node_brk (trees s)) None hs),
          cells := (cells s)(tree \<mapsto> V_TREE ti (tree_next sc))\<rparr>)"
    by (intro tree_set_glue_empty_shaped) auto
next
  assume "cells s tree = Some (V_TREE ti t) \<and> str_of s label = Some l \<and>
    str_of s path = Some p \<and> tree_insert E (trees s) t p l before = (hm, head, 0)"
  then show "tree_insert_glue E i label path tree before s =
        Some (tree, s\<lparr>trees := hm, cells := (cells s)(tree \<mapsto> V_TREE ti head)\<rparr>)"
    using tree_insert_glue_cell [of s label l path p tree ti t E before hm head 0 i] by simp
next
  assume "cells s tree = Some (V_TREE ti t) \<and> str_of s path = Some p \<and>
    tree_rm E (trees s) t p = (hm, head, k) \<and> k \<noteq> - 1"
  then show "tree_rm_glue E i path tree s =
        Some (tree, s\<lparr>trees := hm, cells := (cells s)(tree \<mapsto> V_TREE ti head)\<rparr>)"
    using tree_rm_glue_cell [of s path p tree ti t E hm head k i] by simp
next
  assume b: "cells s' r = Some (V_TREE j t') \<and>
    (tree_set_glue E i path val tree s = Some (r, s') \<or>
     tree_insert_glue E i label path tree before s = Some (r, s') \<or>
     tree_rm_glue E i path tree s = Some (r, s'))"
  then have "r = tree \<and> cell_brk s' = cell_brk s \<and>
      (\<forall>c. c \<noteq> tree \<longrightarrow> cells s' c = cells s c)"
    using tree_set_same_cell [of E i path val tree s r s' j t']
      tree_insert_same_cell [of E i label path tree before s r s' j t']
      tree_rm_same_cell [of E i path tree s r s' j t']
    by (elim conjE disjE) (auto split: option.splits)
  then show "r = tree" and "cell_brk s' = cell_brk s"
    and "\<forall>c. c \<noteq> tree \<longrightarrow> cells s' c = cells s c"
    by simp_all
qed

text \<open>On the tree of one node \<open>a\<close> in cell 8: setting \<open>a\<close> to \<open>x\<close>, inserting \<open>x\<close> before \<open>a\<close>,
  and removing \<open>a\<close> each return cell 8. Setting \<open>a\<close> to \<open>x\<close> in the empty tree of cell 7
  returns cell 7, whose tree is then the new node 2.\<close>

theorem tree_edit_in_place_witness:
  "(\<exists>s'. tree_set_glue demo_ext info0 3 6 8 demo_store = Some (8, s') \<and>
      cells s' = cells demo_store \<and>
      nodes (trees s') 0 = Some \<lparr>tree_label = Some ''a'', tree_value = Some ''x'',
        tree_parent = None, tree_children = None, tree_next = None\<rparr>) \<and>
   (\<exists>s'. tree_set_glue demo_ext info0 3 6 7 demo_store = Some (7, s') \<and>
      cells s' 7 = Some (V_TREE info0 (Some 2)) \<and> nodes (trees s') 1 = None \<and>
      nodes (trees s') 2 = Some \<lparr>tree_label = Some ''a'', tree_value = Some ''x'',
        tree_parent = None, tree_children = None, tree_next = None\<rparr>) \<and>
   (\<exists>s'. tree_insb_glue demo_ext info0 6 3 8 demo_store = Some (8, s') \<and>
      cells s' 8 = Some (V_TREE info0 (Some 1)) \<and>
      nodes (trees s') 1 = Some \<lparr>tree_label = Some ''x'', tree_value = None,
        tree_parent = None, tree_children = None, tree_next = Some 0\<rparr>) \<and>
   (\<exists>s'. tree_rm_glue demo_ext info0 3 8 demo_store = Some (8, s') \<and>
      cells s' 8 = Some (V_TREE info0 None) \<and> nodes (trees s') 0 = None)"
proof -
  have p: "str_of demo_store 3 = Some ''a''" and x: "str_of demo_store 6 = Some ''x''"
    by (simp_all add: str_of_def demo_store_def)
  have c8: "cells demo_store 8 = Some (V_TREE info0 (Some 0))"
    and c7: "cells demo_store 7 = Some (V_TREE info0 None)"
    by (simp_all add: demo_store_def)
  obtain h1 where k1: "tree_set demo_ext (trees demo_store) (Some 0) ''a'' ''x'' = (h1, Some 0)"
    and n1: "nodes h1 0 = Some \<lparr>tree_label = Some ''a'', tree_value = Some ''x'',
        tree_parent = None, tree_children = None, tree_next = None\<rparr>"
    by (simp add: demo_ext_def demo_tree_set_def demo_store_def)
  let ?sc = "\<lparr>tree_label = None, tree_value = None, tree_parent = None,
       tree_children = None, tree_next = Some 2\<rparr>"
  define h2 where "h2 = fst (tree_set demo_ext (snd (make_tree None None None None (trees demo_store)))
        (Some (node_brk (trees demo_store))) ''a'' ''x'')"
  have k2: "tree_set demo_ext (snd (make_tree None None None None (trees demo_store)))
        (Some (node_brk (trees demo_store))) ''a'' ''x'' = (h2, Some 2)"
    by (simp add: h2_def prod_eq_iff demo_ext_def demo_tree_set_def demo_store_def make_tree_def
          set_next_def)
  have n2: "nodes h2 (node_brk (trees demo_store)) = Some ?sc"
    and n22: "nodes h2 2 = Some \<lparr>tree_label = Some ''a'', tree_value = Some ''x'',
       tree_parent = None, tree_children = None, tree_next = None\<rparr>"
    by (simp_all add: h2_def demo_ext_def demo_tree_set_def demo_store_def make_tree_def
          set_next_def)
  have b: "node_brk (trees demo_store) = 1"
    by (simp add: demo_store_def)
  have sh: "shaped (set_next (node_brk (trees demo_store)) None h2)
      (Some (node_brk (trees demo_store))) (Tree_at 1 No_tree No_tree) \<and>
      distinct (addrs (Tree_at 1 No_tree No_tree))"
    using n2 by (simp add: b set_next_def)
  obtain h3 where k3: "tree_insert demo_ext (trees demo_store) (Some 0) ''a'' ''x'' True =
      (h3, Some 1, 0)"
    and n3: "nodes h3 1 = Some \<lparr>tree_label = Some ''x'', tree_value = None,
        tree_parent = None, tree_children = None, tree_next = Some 0\<rparr>"
    by (simp add: demo_ext_def demo_tree_insert_def demo_store_def make_tree_def set_next_def)
  obtain h4 where k4: "tree_rm demo_ext (trees demo_store) (Some 0) ''a'' = (h4, None, 1)"
    and n4: "nodes h4 0 = None"
    by (simp add: demo_ext_def demo_tree_rm_def demo_store_def)
  note th = tree_edit_in_place [where s = demo_store and E = demo_ext and i = info0
      and ti = info0 and p = "''a''" and x = "''x''" and path = 3 and val = 6]
  have e1: "tree_set_glue demo_ext info0 3 6 8 demo_store = Some (8, demo_store\<lparr>trees := h1\<rparr>)"
    using th [where tree = 8 and a = 0 and hs = h1 and n = 0, THEN conjunct1] c8 p x k1
    by simp
  have e2: "tree_set_glue demo_ext info0 3 6 7 demo_store =
      Some (7, demo_store\<lparr>trees := drop_nodes (addrs (Tree_at 1 No_tree No_tree))
          (set_next (node_brk (trees demo_store)) None h2),
        cells := (cells demo_store)(7 \<mapsto> V_TREE info0 (tree_next ?sc))\<rparr>)"
    using th [where tree = 7 and hs = h2 and n = 2 and sc = ?sc
        and sh = "Tree_at 1 No_tree No_tree", THEN conjunct2, THEN conjunct1] c7 p x k2 n2 sh
    by blast
  have e3: "tree_insert_glue demo_ext info0 6 3 8 True demo_store =
      Some (8, demo_store\<lparr>trees := h3, cells := (cells demo_store)(8 \<mapsto> V_TREE info0 (Some 1))\<rparr>)"
    using th [where tree = 8 and t = "Some 0" and label = 6 and l = "''x''" and before = True
        and hm = h3 and head = "Some 1", THEN conjunct2, THEN conjunct2, THEN conjunct1] c8 p x k3
    by simp
  have e4: "tree_rm_glue demo_ext info0 3 8 demo_store =
      Some (8, demo_store\<lparr>trees := h4, cells := (cells demo_store)(8 \<mapsto> V_TREE info0 None)\<rparr>)"
    using th [where tree = 8 and t = "Some 0" and hm = h4 and head = None and k = 1,
        THEN conjunct2, THEN conjunct2, THEN conjunct2, THEN conjunct1] c8 p k4
    by simp
  show ?thesis
    unfolding e1 e2 e3 tree_insb_glue_def e4
    using n1 n2 n22 n3 n4 by (simp add: b drop_nodes_def set_next_def)
qed

end
